theory Spec2Isabelle
  imports Complex_Main "HOL-Library.AList" "HOL-Library.Stream"
begin

text \<open>
  The knowledge graph engine, class \<open>KnowledgeGraph\<close>: its nodes, edges and metrics, the
  linking of a new node to the stored ones by cosine similarity, the metrics snapshot and
  the reinforcement of a node. The operations are functions on an explicit graph state;
  what the engine takes from outside is passed in. The properties follow the definitions.
\<close>

section \<open>Numbers\<close>

text \<open>
  A JavaScript \<open>number\<close> is modelled as an exact real or one of the three special values
  of IEEE arithmetic. Rounding, overflow, underflow and the sign of zero are not modelled:
  finite arithmetic is exact. The special values are kept because the engine divides by a
  product of vector magnitudes that can be zero, and compares the quotient with a threshold.
\<close>

datatype number = Fin real | PosInf | NegInf | NaN

fun num_add :: "number \<Rightarrow> number \<Rightarrow> number" where
  "num_add NaN _ = NaN"
| "num_add _ NaN = NaN"
| "num_add (Fin a) (Fin b) = Fin (a + b)"
| "num_add PosInf NegInf = NaN"
| "num_add NegInf PosInf = NaN"
| "num_add PosInf _ = PosInf"
| "num_add _ PosInf = PosInf"
| "num_add NegInf _ = NegInf"
| "num_add _ NegInf = NegInf"

fun num_mul :: "number \<Rightarrow> number \<Rightarrow> number" where
  "num_mul NaN _ = NaN"
| "num_mul _ NaN = NaN"
| "num_mul (Fin a) (Fin b) = Fin (a * b)"
| "num_mul (Fin a) PosInf = (if a = 0 then NaN else if 0 < a then PosInf else NegInf)"
| "num_mul (Fin a) NegInf = (if a = 0 then NaN else if 0 < a then NegInf else PosInf)"
| "num_mul PosInf (Fin b) = (if b = 0 then NaN else if 0 < b then PosInf else NegInf)"
| "num_mul NegInf (Fin b) = (if b = 0 then NaN else if 0 < b then NegInf else PosInf)"
| "num_mul PosInf PosInf = PosInf"
| "num_mul NegInf NegInf = PosInf"
| "num_mul PosInf NegInf = NegInf"
| "num_mul NegInf PosInf = NegInf"

text \<open>
  Division. A finite divisor \<open>0\<close> stands for \<open>+0\<close>: every divisor in this program is a
  product of square roots or a maximum with \<open>1\<close>, so \<open>-0\<close> never divides.
\<close>

fun num_div :: "number \<Rightarrow> number \<Rightarrow> number" where
  "num_div NaN _ = NaN"
| "num_div _ NaN = NaN"
| "num_div (Fin a) (Fin b) =
     (if b \<noteq> 0 then Fin (a / b) else if a = 0 then NaN else if 0 < a then PosInf else NegInf)"
| "num_div (Fin a) PosInf = Fin 0"
| "num_div (Fin a) NegInf = Fin 0"
| "num_div PosInf (Fin b) = (if 0 \<le> b then PosInf else NegInf)"
| "num_div NegInf (Fin b) = (if 0 \<le> b then NegInf else PosInf)"
| "num_div PosInf PosInf = NaN"
| "num_div PosInf NegInf = NaN"
| "num_div NegInf PosInf = NaN"
| "num_div NegInf NegInf = NaN"

text \<open>\<open>Math.sqrt\<close>.\<close>

fun num_sqrt :: "number \<Rightarrow> number" where
  "num_sqrt (Fin a) = (if a < 0 then NaN else Fin (sqrt a))"
| "num_sqrt PosInf = PosInf"
| "num_sqrt NegInf = NaN"
| "num_sqrt NaN = NaN"

text \<open>The comparison \<open>a > b\<close>: false as soon as one side is \<open>NaN\<close>.\<close>

fun num_gt :: "number \<Rightarrow> number \<Rightarrow> bool" where
  "num_gt NaN _ = False"
| "num_gt _ NaN = False"
| "num_gt (Fin a) (Fin b) = (b < a)"
| "num_gt PosInf PosInf = False"
| "num_gt PosInf _ = True"
| "num_gt _ PosInf = False"
| "num_gt NegInf _ = False"
| "num_gt _ NegInf = True"

text \<open>\<open>Math.max\<close> and \<open>Math.min\<close> of two arguments: \<open>NaN\<close> if either is.\<close>

fun Math_max :: "number \<Rightarrow> number \<Rightarrow> number" where
  "Math_max NaN _ = NaN"
| "Math_max _ NaN = NaN"
| "Math_max a b = (if num_gt a b then a else b)"

fun Math_min :: "number \<Rightarrow> number \<Rightarrow> number" where
  "Math_min NaN _ = NaN"
| "Math_min _ NaN = NaN"
| "Math_min a b = (if num_gt a b then b else a)"

text \<open>Truthiness of a number: \<open>0\<close> and \<open>NaN\<close> are falsy.\<close>

fun truthy :: "number \<Rightarrow> bool" where
  "truthy (Fin a) = (a \<noteq> 0)"
| "truthy NaN = False"
| "truthy _ = True"

section \<open>Data model\<close>

text \<open>
  The interfaces \<open>KnowledgeNode\<close>, \<open>KnowledgeEdge\<close> and \<open>LearningMetrics\<close>. An optional
  field is an \<open>option\<close>. The fields of a node are prefixed \<open>n_\<close>, those of its metadata
  \<open>m_\<close> and those of an edge \<open>e_\<close>, since several share a name (\<open>id\<close>, \<open>weight\<close>,
  \<open>timestamp\<close>, \<open>source\<close>). A string is a list of characters, one per UTF-16 code unit.
\<close>

datatype node_type = concept | entity | document | query

record Metadata =
  m_source :: "string option"
  m_confidence :: "number option"
  m_domain :: "string option"

record KnowledgeNode =
  n_id :: string
  n_label :: string
  n_type :: node_type
  n_content :: string
  n_embedding :: "number list option"
  n_connections :: "string list"
  n_weight :: number
  n_timestamp :: number
  n_metadata :: Metadata

record KnowledgeEdge =
  e_id :: string
  e_source :: string
  e_target :: string
  e_relationship :: string
  e_weight :: number
  e_timestamp :: number

record LearningMetrics =
  totalNodes :: nat
  totalEdges :: nat
  averageConnectivity :: number
  knowledgeDomains :: "string list"
  growthRate :: number
  confidenceScore :: number

text \<open>
  The private state of the class \<open>KnowledgeGraph\<close>. A \<open>Map\<close> iterates in insertion order
  and holds each key once, so it is an association list; \<open>Map.get\<close> is \<open>map_of\<close> and
  \<open>Map.set\<close> is \<open>AList.update\<close> (replace in place, or append a new key).
  \<open>localStorage\<close> and the console are outside the modelled state, so \<open>saveToStorage\<close>,
  which writes only there and catches its own failures, is the identity on it.
\<close>

record KnowledgeGraph =
  nodes :: "(string \<times> KnowledgeNode) list"
  edges :: "(string \<times> KnowledgeEdge) list"
  learningHistory :: "LearningMetrics list"

definition empty_graph :: KnowledgeGraph where
  "empty_graph = \<lparr>nodes = [], edges = [], learningHistory = []\<rparr>"

section \<open>Labels and domains\<close>

text \<open>
  \<open>content.split(/[.!?]+/)\<close>: the pieces of the content between maximal runs of the three
  separators. The flag says that the previous character was a separator, \<open>cur\<close> is the
  piece being read, reversed.
\<close>

definition is_separator :: "char \<Rightarrow> bool" where
  "is_separator c = (c = CHR ''.'' \<or> c = CHR ''!'' \<or> c = CHR ''?'')"

fun split_from :: "bool \<Rightarrow> string \<Rightarrow> string \<Rightarrow> string list" where
  "split_from in_sep cur [] = [rev cur]"
| "split_from in_sep cur (c # cs) =
     (if is_separator c
      then (if in_sep then split_from True cur cs else rev cur # split_from True [] cs)
      else split_from False (c # cur) cs)"

definition split_sentences :: "string \<Rightarrow> string list" where
  "split_sentences content = split_from False [] content"

text \<open>
  \<open>sentences[0]?.substring(0, 50) + '...' || 'Unknown'\<close>. The sum binds tighter than
  \<open>||\<close>; an absent \<open>sentences[0]\<close> would make the left operand the string
  \<open>undefined...\<close>; the right operand is taken when the left one is the empty string.
\<close>

definition extractLabel :: "string \<Rightarrow> string" where
  "extractLabel content =
     (let sentences = split_sentences content;
          s = (case sentences of [] \<Rightarrow> ''undefined'' | first # _ \<Rightarrow> take 50 first) @ ''...''
      in if s = [] then ''Unknown'' else s)"

text \<open>\<open>toLowerCase\<close> on the ASCII letters, and \<open>String.includes\<close>.\<close>

definition lower_char :: "char \<Rightarrow> char" where
  "lower_char c =
     (let n = (of_char c :: nat) in if 65 \<le> n \<and> n \<le> 90 then char_of (n + 32) else c)"

definition toLowerCase :: "string \<Rightarrow> string" where
  "toLowerCase s = map lower_char s"

fun startsWith :: "string \<Rightarrow> string \<Rightarrow> bool" where
  "startsWith _ [] = True"
| "startsWith [] (k # ks) = False"
| "startsWith (c # cs) (k # ks) = (c = k \<and> startsWith cs ks)"

fun includes_str :: "string \<Rightarrow> string \<Rightarrow> bool" where
  "includes_str [] k = (k = [])"
| "includes_str (c # cs) k = (startsWith (c # cs) k \<or> includes_str cs k)"

definition domains :: "(string \<times> string list) list" where
  "domains =
     [(''ai'', [''artificial intelligence'', ''machine learning'', ''neural network'',
                ''deep learning'']),
      (''science'', [''research'', ''study'', ''experiment'', ''theory'', ''hypothesis'']),
      (''technology'', [''software'', ''hardware'', ''computer'', ''digital'', ''tech'']),
      (''business'', [''market'', ''company'', ''economy'', ''finance'', ''business'']),
      (''general'', [])]"

fun first_domain :: "string \<Rightarrow> (string \<times> string list) list \<Rightarrow> string" where
  "first_domain lowerContent [] = ''general''"
| "first_domain lowerContent ((domain, keywords) # rest) =
     (if list_ex (\<lambda>keyword. includes_str lowerContent keyword) keywords then domain
      else first_domain lowerContent rest)"

definition inferDomain :: "string \<Rightarrow> string" where
  "inferDomain content = first_domain (toLowerCase content) domains"

section \<open>Similarity\<close>

text \<open>
  \<open>b[i]\<close> beyond the end of \<open>b\<close> is \<open>undefined\<close>, and a product with it is \<open>NaN\<close>.
\<close>

definition at_index :: "number list \<Rightarrow> nat \<Rightarrow> number" where
  "at_index b i = (if i < length b then b ! i else NaN)"

fun dot_from :: "nat \<Rightarrow> number \<Rightarrow> number list \<Rightarrow> number list \<Rightarrow> number" where
  "dot_from i acc [] b = acc"
| "dot_from i acc (val # a) b = dot_from (Suc i) (num_add acc (num_mul val (at_index b i))) a b"

definition sum_squares :: "number list \<Rightarrow> number" where
  "sum_squares a = foldl (\<lambda>acc val. num_add acc (num_mul val val)) (Fin 0) a"

definition magnitude :: "number list \<Rightarrow> number" where
  "magnitude a = num_sqrt (sum_squares a)"

definition cosineSimilarity :: "number list \<Rightarrow> number list \<Rightarrow> number" where
  "cosineSimilarity a b =
     (let dotProduct = dot_from 0 (Fin 0) a b;
          magnitudeA = magnitude a;
          magnitudeB = magnitude b
      in num_div dotProduct (num_mul magnitudeA magnitudeB))"

text \<open>\<open>inferRelationship(nodeA, nodeB)\<close>: the first test that holds decides.\<close>

definition inferRelationship :: "KnowledgeNode \<Rightarrow> KnowledgeNode \<Rightarrow> string" where
  "inferRelationship nodeA nodeB =
     (if n_type nodeA = n_type nodeB then ''similar_to''
      else if n_type nodeA = document \<and> n_type nodeB = concept then ''contains''
      else if n_type nodeA = concept \<and> n_type nodeB = entity then ''relates_to''
      else ''connected_to'')"

section \<open>The environment\<close>

text \<open>
  The engine calls four things it does not own: the embedding pipeline, \<open>Math.random\<close>,
  \<open>crypto.randomUUID\<close> and \<open>Date.now\<close>. The pipeline is a function that may fail
  (\<open>None\<close>: the call throws or the promise is rejected); the other three are streams of the
  values returned by their successive calls.
\<close>

definition generateEmbedding ::
  "(string \<Rightarrow> number list option) \<Rightarrow> real stream \<Rightarrow> string \<Rightarrow> number list" where
  "generateEmbedding embedder random text =
     (case embedder (take 500 text) of
        Some data \<Rightarrow> data
      | None \<Rightarrow> map (\<lambda>r. Fin (r - 0.5)) (stake 384 random))"

section \<open>Linking\<close>

text \<open>\<open>node.connections.push(c)\<close> on the node stored under \<open>key\<close>.\<close>

definition push_connection ::
  "string \<Rightarrow> string \<Rightarrow> (string \<times> KnowledgeNode) list \<Rightarrow> (string \<times> KnowledgeNode) list" where
  "push_connection key c ns =
     map (\<lambda>(k, n). if k = key then (k, n\<lparr>n_connections := n_connections n @ [c]\<rparr>) else (k, n)) ns"

text \<open>
  The loop of \<open>createConnections\<close> over the entries of the node map. The loop changes only
  \<open>connections\<close>, so the type and the embedding it reads are those of the entries at its start.
\<close>

fun connect_loop ::
  "string \<Rightarrow> KnowledgeNode \<Rightarrow> number list \<Rightarrow> (string \<times> KnowledgeNode) list \<Rightarrow>
   string stream \<Rightarrow> number stream \<Rightarrow> KnowledgeGraph \<Rightarrow> KnowledgeGraph" where
  "connect_loop nodeId newNode newEmbedding [] uuids clock g = g"
| "connect_loop nodeId newNode newEmbedding ((existingId, existingNode) # rest) uuids clock g =
     (case n_embedding existingNode of
        None \<Rightarrow> connect_loop nodeId newNode newEmbedding rest uuids clock g
      | Some existingEmbedding \<Rightarrow>
          if existingId = nodeId then connect_loop nodeId newNode newEmbedding rest uuids clock g
          else
            let similarity = cosineSimilarity newEmbedding existingEmbedding in
            if num_gt similarity (Fin 0.7) then
              let edgeId = shd uuids;
                  edge = \<lparr>e_id = edgeId, e_source = nodeId, e_target = existingId,
                          e_relationship = inferRelationship newNode existingNode,
                          e_weight = similarity, e_timestamp = shd clock\<rparr>
              in connect_loop nodeId newNode newEmbedding rest (stl uuids) (stl clock)
                   (g\<lparr>edges := AList.update edgeId edge (edges g),
                      nodes := push_connection existingId nodeId
                                 (push_connection nodeId existingId (nodes g))\<rparr>)
            else connect_loop nodeId newNode newEmbedding rest uuids clock g)"

definition createConnections ::
  "string stream \<Rightarrow> number stream \<Rightarrow> KnowledgeGraph \<Rightarrow> string \<Rightarrow> KnowledgeGraph" where
  "createConnections uuids clock g nodeId =
     (case map_of (nodes g) nodeId of
        None \<Rightarrow> g
      | Some newNode \<Rightarrow>
          (case n_embedding newNode of
             None \<Rightarrow> g
           | Some newEmbedding \<Rightarrow>
               connect_loop nodeId newNode newEmbedding (nodes g) uuids clock g))"

section \<open>Metrics\<close>

text \<open>\<open>Array.from(new Set(xs))\<close>: the values of \<open>xs\<close> in the order of their first occurrence.\<close>

definition Array_from_Set :: "'a list \<Rightarrow> 'a list" where
  "Array_from_Set xs = foldl (\<lambda>seen x. if x \<in> set seen then seen else seen @ [x]) [] xs"

text \<open>\<open>node.metadata.domain || 'unknown'\<close> and \<open>node.metadata.confidence || 0.5\<close>.\<close>

definition domain_or_unknown :: "KnowledgeNode \<Rightarrow> string" where
  "domain_or_unknown node =
     (case m_domain (n_metadata node) of
        None \<Rightarrow> ''unknown''
      | Some d \<Rightarrow> if d = [] then ''unknown'' else d)"

definition confidence_or_half :: "KnowledgeNode \<Rightarrow> number" where
  "confidence_or_half node =
     (case m_confidence (n_metadata node) of
        None \<Rightarrow> Fin 0.5
      | Some c \<Rightarrow> if truthy c then c else Fin 0.5)"

definition calculateMetrics :: "KnowledgeGraph \<Rightarrow> LearningMetrics" where
  "calculateMetrics g =
     (let nodeCount = length (nodes g);
          edgeCount = length (edges g);
          connectivity = (if 0 < nodeCount then Fin (real edgeCount / real nodeCount) else Fin 0);
          domainList = Array_from_Set (map (\<lambda>(k, node). domain_or_unknown node) (nodes g));
          growth = (case learningHistory g of
                      [] \<Rightarrow> Fin 0
                    | _ # _ \<Rightarrow>
                        let previousMetrics = last (learningHistory g) in
                        Fin ((real nodeCount - real (totalNodes previousMetrics))
                             / real (max 1 (totalNodes previousMetrics))));
          confidence = num_div
                         (foldl (\<lambda>acc (k, node). num_add acc (confidence_or_half node))
                            (Fin 0) (nodes g))
                         (Fin (real (max 1 nodeCount)))
      in \<lparr>totalNodes = nodeCount, totalEdges = edgeCount, averageConnectivity = connectivity,
          knowledgeDomains = domainList, growthRate = growth, confidenceScore = confidence\<rparr>)"

definition updateMetrics :: "KnowledgeGraph \<Rightarrow> KnowledgeGraph" where
  "updateMetrics g =
     (let metrics = calculateMetrics g;
          history = learningHistory g @ [metrics]
      in g\<lparr>learningHistory :=
             (if 100 < length history then drop (length history - 100) history else history)\<rparr>)"

section \<open>The two mutating operations\<close>

text \<open>
  The metadata argument of \<open>addKnowledge\<close>. Spreading an object copies the keys it has,
  also those whose value is \<open>undefined\<close>, so a key of the argument is missing, present
  with the value \<open>undefined\<close>, or present with a value.
\<close>

datatype 'a property = Missing | Undefined | Present 'a

record MetadataArg =
  a_source :: "string property"
  a_confidence :: "number property"
  a_domain :: "string property"

text \<open>
  \<open>addKnowledge\<close>; \<open>make_node\<close> is its object literal. The defaults
  \<open>confidence: 0.8\<close> and \<open>domain: inferDomain(content)\<close> are overwritten by the keys the
  caller's metadata has; a key overwritten with \<open>undefined\<close> reads as an absent one
  from then on.
\<close>

definition make_node ::
  "string \<Rightarrow> number list \<Rightarrow> number \<Rightarrow> string \<Rightarrow> node_type \<Rightarrow> MetadataArg \<Rightarrow> KnowledgeNode" where
  "make_node nodeId embedding now content ty metadata =
     \<lparr>n_id = nodeId, n_label = extractLabel content, n_type = ty,
      n_content = content, n_embedding = Some embedding, n_connections = [],
      n_weight = Fin 1, n_timestamp = now,
      n_metadata =
        \<lparr>m_source = (case a_source metadata of
                       Missing \<Rightarrow> None | Undefined \<Rightarrow> None | Present s \<Rightarrow> Some s),
         m_confidence = (case a_confidence metadata of
                           Missing \<Rightarrow> Some (Fin 0.8) | Undefined \<Rightarrow> None | Present c \<Rightarrow> Some c),
         m_domain = (case a_domain metadata of
                       Missing \<Rightarrow> Some (inferDomain content) | Undefined \<Rightarrow> None
                     | Present d \<Rightarrow> Some d)\<rparr>\<rparr>"

definition addKnowledge ::
  "(string \<Rightarrow> number list option) \<Rightarrow> real stream \<Rightarrow> string stream \<Rightarrow> number stream \<Rightarrow>
   KnowledgeGraph \<Rightarrow> string \<Rightarrow> node_type \<Rightarrow> MetadataArg \<Rightarrow> string \<times> KnowledgeGraph" where
  "addKnowledge embedder random uuids clock g content ty metadata =
     (let nodeId = shd uuids;
          embedding = generateEmbedding embedder random content;
          node = make_node nodeId embedding (shd clock) content ty metadata;
          g1 = g\<lparr>nodes := AList.update nodeId node (nodes g)\<rparr>;
          g2 = createConnections (stl uuids) (stl clock) g1 nodeId;
          g3 = updateMetrics g2
      in (nodeId, g3))"

datatype feedback = positive | negative

text \<open>
  \<open>reinforceKnowledge\<close>. The test \<open>if (node.metadata.confidence)\<close> is a test of
  truthiness.
\<close>

definition reinforceKnowledge :: "KnowledgeGraph \<Rightarrow> string \<Rightarrow> feedback \<Rightarrow> KnowledgeGraph" where
  "reinforceKnowledge g nodeId fb =
     (case map_of (nodes g) nodeId of
        None \<Rightarrow> g
      | Some node \<Rightarrow>
          let adjustment = (if fb = positive then Fin 0.1 else Fin (- 0.1));
              weight = Math_max (Fin 0.1) (Math_min (Fin 2.0) (num_add (n_weight node) adjustment));
              md = n_metadata node;
              md' = (case m_confidence md of
                       None \<Rightarrow> md
                     | Some c \<Rightarrow>
                         if truthy c
                         then md\<lparr>m_confidence :=
                                   Some (Math_max (Fin 0.1) (Math_min (Fin 1.0) (num_add c adjustment)))\<rparr>
                         else md)
          in g\<lparr>nodes := AList.update nodeId (node\<lparr>n_weight := weight, n_metadata := md'\<rparr>) (nodes g)\<rparr>)"

section \<open>Vocabulary of the properties\<close>

text \<open>
  The edges an operation has appended: those of the result after the edges of the graph it
  started from.
\<close>

definition created_edges :: "KnowledgeGraph \<Rightarrow> KnowledgeGraph \<Rightarrow> (string \<times> KnowledgeEdge) list" where
  "created_edges g g' = drop (length (edges g)) (edges g')"

text \<open>
  \<open>crypto.randomUUID\<close> is expected to return identifiers that are new: the first \<open>n\<close>
  of the stream differ from each other and from the keys of the map they go into.
\<close>

definition unused_ids :: "nat \<Rightarrow> string stream \<Rightarrow> (string \<times> 'a) list \<Rightarrow> bool" where
  "unused_ids n uuids entries =
     (distinct (stake n uuids) \<and> set (stake n uuids) \<inter> fst ` set entries = {})"

text \<open>An edge between two node ids, in either direction.\<close>

definition edge_between :: "KnowledgeGraph \<Rightarrow> string \<Rightarrow> string \<Rightarrow> bool" where
  "edge_between g a b =
     list_ex (\<lambda>(k, e). (e_source e = a \<and> e_target e = b) \<or> (e_source e = b \<and> e_target e = a))
       (edges g)"

text \<open>
  Connection symmetry: for two distinct stored nodes, an edge joins them exactly when the
  second is among the connections of the first, exactly when the first is among the
  connections of the second. A stored node is named by its key in the node map, which is
  what edges and connections hold; under referential integrity the key is the node's id.
\<close>

definition connection_symmetry :: "KnowledgeGraph \<Rightarrow> bool" where
  "connection_symmetry g =
     (\<forall>a na b nb. map_of (nodes g) a = Some na \<longrightarrow> map_of (nodes g) b = Some nb \<longrightarrow> a \<noteq> b \<longrightarrow>
        (edge_between g a b \<longleftrightarrow> b \<in> set (n_connections na)) \<and>
        (b \<in> set (n_connections na) \<longleftrightarrow> a \<in> set (n_connections nb)))"

text \<open>
  Referential integrity: the keys of the node map are distinct (it is a \<open>Map\<close>), every
  node is stored under its own id, and every endpoint of an edge and every connection is
  one of the keys.
\<close>

definition referential_integrity :: "KnowledgeGraph \<Rightarrow> bool" where
  "referential_integrity g =
     (distinct (map fst (nodes g)) \<and>
      (\<forall>(k, n) \<in> set (nodes g). n_id n = k) \<and>
      (\<forall>(k, e) \<in> set (edges g).
         e_source e \<in> fst ` set (nodes g) \<and> e_target e \<in> fst ` set (nodes g)) \<and>
      (\<forall>(k, n) \<in> set (nodes g). set (n_connections n) \<subseteq> fst ` set (nodes g)))"

definition graph_inv :: "KnowledgeGraph \<Rightarrow> bool" where
  "graph_inv g = (referential_integrity g \<and> connection_symmetry g)"

text \<open>
  The test under which the loop of \<open>createConnections\<close> links the new node to an entry,
  and the edges the loop appends, one for each entry that passes the test.
\<close>

definition links :: "string \<Rightarrow> number list \<Rightarrow> string \<times> KnowledgeNode \<Rightarrow> bool" where
  "links nodeId newEmbedding entry =
     (case n_embedding (snd entry) of
        None \<Rightarrow> False
      | Some existingEmbedding \<Rightarrow>
          fst entry \<noteq> nodeId \<and> num_gt (cosineSimilarity newEmbedding existingEmbedding) (Fin 0.7))"

definition link_edge ::
  "string \<Rightarrow> KnowledgeNode \<Rightarrow> number list \<Rightarrow> string \<times> KnowledgeNode \<Rightarrow> string \<Rightarrow> number \<Rightarrow>
   KnowledgeEdge" where
  "link_edge nodeId newNode newEmbedding entry edgeId now =
     \<lparr>e_id = edgeId, e_source = nodeId, e_target = fst entry,
      e_relationship = inferRelationship newNode (snd entry),
      e_weight = cosineSimilarity newEmbedding (the (n_embedding (snd entry))),
      e_timestamp = now\<rparr>"

fun new_edges ::
  "string \<Rightarrow> KnowledgeNode \<Rightarrow> number list \<Rightarrow> (string \<times> KnowledgeNode) list \<Rightarrow>
   string stream \<Rightarrow> number stream \<Rightarrow> (string \<times> KnowledgeEdge) list" where
  "new_edges nodeId newNode newEmbedding [] uuids clock = []"
| "new_edges nodeId newNode newEmbedding (entry # rest) uuids clock =
     (if links nodeId newEmbedding entry
      then (shd uuids, link_edge nodeId newNode newEmbedding entry (shd uuids) (shd clock))
           # new_edges nodeId newNode newEmbedding rest (stl uuids) (stl clock)
      else new_edges nodeId newNode newEmbedding rest uuids clock)"

text \<open>
  The mean the specification describes for \<open>confidenceScore\<close>: the confidence of a node,
  read as \<open>0.5\<close> when the node has none, averaged over the nodes. These two definitions
  follow the words of the specification, not the code; a confidence that is not a finite
  number is given the value \<open>0.5\<close> as well, to make the function total.
\<close>

definition confidence_value :: "KnowledgeNode \<Rightarrow> real" where
  "confidence_value node =
     (case m_confidence (n_metadata node) of Some (Fin c) \<Rightarrow> c | _ \<Rightarrow> 0.5)"

definition mean_confidence :: "KnowledgeGraph \<Rightarrow> real" where
  "mean_confidence g =
     sum_list (map (\<lambda>(k, node). confidence_value node) (nodes g)) / real (length (nodes g))"




section \<open>Example data\<close>

text \<open>Small graphs and environments on which the theorems below are exercised.\<close>

definition ex_md :: "number option \<Rightarrow> string option \<Rightarrow> Metadata" where
  "ex_md conf dmn = \<lparr>m_source = None, m_confidence = conf, m_domain = dmn\<rparr>"

text \<open>The metadata argument \<open>{}\<close>, and the argument \<open>{confidence: c}\<close>.\<close>

definition no_overrides :: MetadataArg where
  "no_overrides = \<lparr>a_source = Missing, a_confidence = Missing, a_domain = Missing\<rparr>"

definition confidence_only :: "number \<Rightarrow> MetadataArg" where
  "confidence_only c = \<lparr>a_source = Missing, a_confidence = Present c, a_domain = Missing\<rparr>"

definition ex_node :: "string \<Rightarrow> node_type \<Rightarrow> number list option \<Rightarrow> Metadata \<Rightarrow> KnowledgeNode" where
  "ex_node i ty emb md =
     \<lparr>n_id = i, n_label = ''...'', n_type = ty, n_content = [], n_embedding = emb,
      n_connections = [], n_weight = Fin 1, n_timestamp = Fin 0, n_metadata = md\<rparr>"

text \<open>One node \<open>a\<close> of a given type with the embedding \<open>(1, 0)\<close>.\<close>

definition ex_a :: "node_type \<Rightarrow> KnowledgeNode" where
  "ex_a ty = ex_node ''a'' ty (Some [Fin 1, Fin 0]) (ex_md (Some (Fin 0.8)) (Some ''general''))"

definition single_graph :: "node_type \<Rightarrow> KnowledgeGraph" where
  "single_graph ty = \<lparr>nodes = [(''a'', ex_a ty)], edges = [], learningHistory = []\<rparr>"

text \<open>One node \<open>a\<close> that has neither an embedding, nor a confidence, nor a domain.\<close>

definition bare_graph :: KnowledgeGraph where
  "bare_graph =
     \<lparr>nodes = [(''a'', ex_node ''a'' concept None (ex_md None None))],
      edges = [], learningHistory = []\<rparr>"

text \<open>A document \<open>a\<close> and a concept \<open>b\<close> joined by the edge \<open>e0\<close>.\<close>

definition pair_graph :: KnowledgeGraph where
  "pair_graph =
     \<lparr>nodes = [(''a'', (ex_node ''a'' document (Some [Fin 1, Fin 0])
                         (ex_md (Some (Fin 0.8)) (Some ''general'')))\<lparr>n_connections := [''b'']\<rparr>),
               (''b'', (ex_node ''b'' concept (Some [Fin 1, Fin 0])
                         (ex_md None (Some ''ai'')))\<lparr>n_connections := [''a'']\<rparr>)],
      edges = [(''e0'', \<lparr>e_id = ''e0'', e_source = ''b'', e_target = ''a'',
                         e_relationship = ''connected_to'', e_weight = Fin 1,
                         e_timestamp = Fin 0\<rparr>)],
      learningHistory = []\<rparr>"

text \<open>
  An embedder that returns \<open>(1, 0)\<close> for every text, one that returns the zero vector, one
  that returns a given vector, and one that always fails.
\<close>

definition unit_embedder :: "string \<Rightarrow> number list option" where
  "unit_embedder text = Some [Fin 1, Fin 0]"

definition zero_embedder :: "string \<Rightarrow> number list option" where
  "zero_embedder text = Some [Fin 0, Fin 0]"



definition ex_uuids :: "string stream" where
  "ex_uuids = ''n'' ## ''e1'' ## ''e2'' ## sconst ''e3''"

definition ex_clock :: "number stream" where
  "ex_clock = sconst (Fin 0)"

definition ex_random :: "real stream" where
  "ex_random = sconst 0"

section \<open>The linking loop\<close>

lemma update_unused: "k \<notin> fst ` set al \<Longrightarrow> AList.update k v al = al @ [(k, v)]"
  by (induction al) auto

lemma unused_ids_head: "unused_ids (Suc n) uuids al \<Longrightarrow> shd uuids \<notin> fst ` set al"
  by (auto simp: unused_ids_def)

lemma unused_ids_mono: "m \<le> n \<Longrightarrow> unused_ids n uuids al \<Longrightarrow> unused_ids m uuids al"
proof -
  assume mn: "m \<le> n" and a: "unused_ids n uuids al"
  from mn have t: "stake m uuids = take m (stake n uuids)"
    by (simp only: take_stake) simp
  have "distinct (stake m uuids)"
    using a unfolding unused_ids_def t by (intro distinct_take) simp
  moreover have "set (stake m uuids) \<subseteq> set (stake n uuids)"
    unfolding t by (rule set_take_subset)
  ultimately show ?thesis using a unfolding unused_ids_def by blast
qed

lemma unused_ids_tail:
  "unused_ids (Suc n) uuids al \<Longrightarrow> unused_ids n (stl uuids) (al @ [(shd uuids, v)])"
  by (auto simp: unused_ids_def)

lemma connect_loop_skip:
  "\<not> links nodeId ne x \<Longrightarrow>
   connect_loop nodeId nn ne (x # rest) uuids clock g = connect_loop nodeId nn ne rest uuids clock g"
  by (cases x) (auto simp: links_def split: option.splits)

lemma connect_loop_link:
  "links nodeId ne x \<Longrightarrow>
   connect_loop nodeId nn ne (x # rest) uuids clock g =
   connect_loop nodeId nn ne rest (stl uuids) (stl clock)
     (g\<lparr>edges := AList.update (shd uuids) (link_edge nodeId nn ne x (shd uuids) (shd clock)) (edges g),
        nodes := push_connection (fst x) nodeId (push_connection nodeId (fst x) (nodes g))\<rparr>)"
  by (cases x) (auto simp: links_def link_edge_def Let_def split: option.splits)

lemma connect_loop_edges:
  "unused_ids (length (filter (links nodeId ne) todo)) uuids (edges g) \<Longrightarrow>
   edges (connect_loop nodeId nn ne todo uuids clock g) =
   edges g @ new_edges nodeId nn ne todo uuids clock"
proof (induction todo arbitrary: uuids clock g)
  case Nil
  show ?case by simp
next
  case (Cons x rest)
  show ?case
  proof (cases "links nodeId ne x")
    case False
    with Cons.prems have "unused_ids (length (filter (links nodeId ne) rest)) uuids (edges g)"
      by simp
    from Cons.IH [OF this] False show ?thesis
      by (simp add: connect_loop_skip)
  next
    case True
    with Cons.prems
    have u: "unused_ids (Suc (length (filter (links nodeId ne) rest))) uuids (edges g)"
      by simp
    let ?e = "link_edge nodeId nn ne x (shd uuids) (shd clock)"
    let ?g = "g\<lparr>edges := AList.update (shd uuids) ?e (edges g),
        nodes := push_connection (fst x) nodeId (push_connection nodeId (fst x) (nodes g))\<rparr>"
    have e: "edges ?g = edges g @ [(shd uuids, ?e)]"
      using update_unused [OF unused_ids_head [OF u]] by simp
    have "unused_ids (length (filter (links nodeId ne) rest)) (stl uuids) (edges ?g)"
      unfolding e by (rule unused_ids_tail [OF u])
    from Cons.IH [OF this] True show ?thesis
      by (simp only: connect_loop_link [OF True] e new_edges.simps if_True append_Cons append_Nil append_assoc)
  qed
qed

lemma new_edges_sound:
  "(k, e) \<in> set (new_edges nodeId nn ne todo uuids clock) \<Longrightarrow>
   \<exists>x \<in> set todo. links nodeId ne x \<and> e_source e = nodeId \<and> e_target e = fst x
     \<and> e_weight e = cosineSimilarity ne (the (n_embedding (snd x)))
     \<and> e_relationship e = inferRelationship nn (snd x)"
proof (induction todo arbitrary: uuids clock)
  case Nil
  then show ?case by simp
next
  case (Cons x rest)
  show ?case
  proof (cases "links nodeId ne x")
    case False
    with Cons.prems have "(k, e) \<in> set (new_edges nodeId nn ne rest uuids clock)" by simp
    from Cons.IH [OF this] show ?thesis by auto
  next
    case True
    with Cons.prems consider
      "e = link_edge nodeId nn ne x (shd uuids) (shd clock)"
      | "(k, e) \<in> set (new_edges nodeId nn ne rest (stl uuids) (stl clock))"
      by auto
    then show ?thesis
    proof cases
      case 1
      with True show ?thesis by (simp add: link_edge_def)
    next
      case 2
      from Cons.IH [OF this] show ?thesis by auto
    qed
  qed
qed



lemma keys_push_connection: "map fst (push_connection key c ns) = map fst ns"
  by (induction ns) (auto simp: push_connection_def)

lemma map_of_push_connection:
  "map_of (push_connection key c ns) k =
   (if k = key then map_option (\<lambda>n. n\<lparr>n_connections := n_connections n @ [c]\<rparr>) (map_of ns k)
    else map_of ns k)"
  by (induction ns) (auto simp: push_connection_def)

lemma connect_loop_untouched:
  "k \<noteq> nodeId \<Longrightarrow> \<forall>x \<in> set todo. fst x = k \<longrightarrow> \<not> links nodeId ne x \<Longrightarrow>
   map_of (nodes (connect_loop nodeId nn ne todo uuids clock g)) k = map_of (nodes g) k"
proof (induction todo arbitrary: uuids clock g)
  case Nil
  show ?case by simp
next
  case (Cons x rest)
  from Cons.prems have r: "\<forall>x \<in> set rest. fst x = k \<longrightarrow> \<not> links nodeId ne x" by simp
  show ?case
  proof (cases "links nodeId ne x")
    case False
    then show ?thesis using Cons.IH [OF Cons.prems(1) r] by (simp add: connect_loop_skip)
  next
    case True
    with Cons.prems have "fst x \<noteq> k" by auto
    with True Cons.prems(1) show ?thesis
      using Cons.IH [OF Cons.prems(1) r] by (simp add: connect_loop_link map_of_push_connection)
  qed
qed

section \<open>The invariant across one link\<close>

lemma edge_between_append:
  "edge_between (g\<lparr>edges := edges g @ [(k, e)], nodes := ns\<rparr>) p q =
   (edge_between g p q \<or> (e_source e = p \<and> e_target e = q) \<or> (e_source e = q \<and> e_target e = p))"
  by (auto simp: edge_between_def list_ex_iff)

lemma in_push_connection:
  "(k, n') \<in> set (push_connection key c ns) \<longleftrightarrow>
   (\<exists>n. (k, n) \<in> set ns \<and> n' = (if k = key then n\<lparr>n_connections := n_connections n @ [c]\<rparr> else n))"
proof (induction ns)
  case Nil
  show ?case by (simp add: push_connection_def)
next
  case (Cons x xs)
  obtain k0 n0 where x: "x = (k0, n0)" by (cases x)
  have "push_connection key c (x # xs) =
    (if k0 = key then (k0, n0\<lparr>n_connections := n_connections n0 @ [c]\<rparr>) else (k0, n0))
    # push_connection key c xs"
    by (simp add: push_connection_def x)
  then show ?case using Cons.IH by (auto simp: x)
qed

lemma keys_set_push_connection: "fst ` set (push_connection key c ns) = fst ` set ns"
  using keys_push_connection [of key c ns] by (metis set_map)

lemma link_step_integrity:
  assumes "referential_integrity g" and "a \<in> fst ` set (nodes g)" and "b \<in> fst ` set (nodes g)"
    and "e_source e = a" and "e_target e = b"
  shows "referential_integrity
           (g\<lparr>edges := edges g @ [(eid, e)],
              nodes := push_connection b a (push_connection a b (nodes g))\<rparr>)"
proof -
  let ?ns = "push_connection b a (push_connection a b (nodes g))"
  have keys: "fst ` set ?ns = fst ` set (nodes g)"
    by (simp add: keys_set_push_connection)
  have d: "distinct (map fst ?ns)"
    using assms(1) by (simp add: keys_push_connection referential_integrity_def)
  have es: "\<forall>(k, e') \<in> set (edges g @ [(eid, e)]).
      e_source e' \<in> fst ` set (nodes g) \<and> e_target e' \<in> fst ` set (nodes g)"
    using assms unfolding referential_integrity_def by auto
  have cs: "set (n_connections n') \<subseteq> fst ` set (nodes g) \<and> n_id n' = k"
    if "(k, n') \<in> set ?ns" for k n'
  proof -
    from that obtain n1 where n1: "(k, n1) \<in> set (push_connection a b (nodes g))"
      and n': "n' = (if k = b then n1\<lparr>n_connections := n_connections n1 @ [a]\<rparr> else n1)"
      unfolding in_push_connection [of k n' b a] by blast
    from n1 obtain n where n: "(k, n) \<in> set (nodes g)"
      and n1': "n1 = (if k = a then n\<lparr>n_connections := n_connections n @ [b]\<rparr> else n)"
      unfolding in_push_connection [of k n1 a b] by blast
    from n assms(1) have "set (n_connections n) \<subseteq> fst ` set (nodes g)" and "n_id n = k"
      unfolding referential_integrity_def by blast+
    with assms(2,3) show ?thesis by (auto simp: n' n1')
  qed
  show ?thesis
    unfolding referential_integrity_def using d es cs by (simp add: keys) blast
qed

lemma link_step_symmetry:
  assumes "connection_symmetry g" and "a \<noteq> b" and "e_source e = a" and "e_target e = b"
  shows "connection_symmetry
           (g\<lparr>edges := edges g @ [(eid, e)],
              nodes := push_connection b a (push_connection a b (nodes g))\<rparr>)"
proof -
  let ?g = "g\<lparr>edges := edges g @ [(eid, e)],
              nodes := push_connection b a (push_connection a b (nodes g))\<rparr>"
  have conn: "\<exists>n. map_of (nodes g) k = Some n \<and>
      set (n_connections n') =
        set (n_connections n) \<union> (if k = a then {b} else {}) \<union> (if k = b then {a} else {})"
    if "map_of (nodes ?g) k = Some n'" for k n'
    using that assms(2) by (auto simp: map_of_push_connection split: if_splits)
  have eb: "edge_between ?g p q = (edge_between g p q \<or> (a = p \<and> b = q) \<or> (a = q \<and> b = p))" for p q
    using edge_between_append [where g = g and k = eid and e = e and p = p and q = q] assms(3,4) by simp
  show ?thesis
    unfolding connection_symmetry_def
  proof (intro allI impI)
    fix p np q nq
    assume p: "map_of (nodes ?g) p = Some np" and q: "map_of (nodes ?g) q = Some nq" and pq: "p \<noteq> q"
    from conn [OF p] obtain np0 where np0: "map_of (nodes g) p = Some np0"
      and cp: "set (n_connections np) =
        set (n_connections np0) \<union> (if p = a then {b} else {}) \<union> (if p = b then {a} else {})"
      by blast
    from conn [OF q] obtain nq0 where nq0: "map_of (nodes g) q = Some nq0"
      and cq: "set (n_connections nq) =
        set (n_connections nq0) \<union> (if q = a then {b} else {}) \<union> (if q = b then {a} else {})"
      by blast
    from assms(1) np0 nq0 pq
    have s1: "edge_between g p q \<longleftrightarrow> q \<in> set (n_connections np0)"
      and s2: "q \<in> set (n_connections np0) \<longleftrightarrow> p \<in> set (n_connections nq0)"
      unfolding connection_symmetry_def by blast+
    show "(edge_between ?g p q \<longleftrightarrow> q \<in> set (n_connections np)) \<and>
          (q \<in> set (n_connections np) \<longleftrightarrow> p \<in> set (n_connections nq))"
      unfolding eb cp cq using s1 s2 pq assms(2) by auto
  qed
qed

lemma link_step_inv:
  assumes "graph_inv g" and "a \<in> fst ` set (nodes g)" and "b \<in> fst ` set (nodes g)"
    and "a \<noteq> b" and "e_source e = a" and "e_target e = b"
  shows "graph_inv
           (g\<lparr>edges := edges g @ [(eid, e)],
              nodes := push_connection b a (push_connection a b (nodes g))\<rparr>)"
  using assms link_step_integrity [of g a b e eid] link_step_symmetry [of g a b e eid]
  unfolding graph_inv_def by blast

lemma links_not_self: "links nodeId ne x \<Longrightarrow> fst x \<noteq> nodeId"
  by (auto simp: links_def split: option.splits)

lemma connect_loop_inv:
  "graph_inv g \<Longrightarrow> nodeId \<in> fst ` set (nodes g) \<Longrightarrow> fst ` set todo \<subseteq> fst ` set (nodes g) \<Longrightarrow>
   unused_ids (length (filter (links nodeId ne) todo)) uuids (edges g) \<Longrightarrow>
   graph_inv (connect_loop nodeId nn ne todo uuids clock g)"
proof (induction todo arbitrary: uuids clock g)
  case Nil
  then show ?case by simp
next
  case (Cons x rest)
  from Cons.prems(3) have sub: "fst ` set rest \<subseteq> fst ` set (nodes g)" and xin: "fst x \<in> fst ` set (nodes g)"
    by auto
  show ?case
  proof (cases "links nodeId ne x")
    case False
    with Cons.prems(4) have "unused_ids (length (filter (links nodeId ne) rest)) uuids (edges g)"
      by simp
    from Cons.IH [OF Cons.prems(1,2) sub this] False show ?thesis
      by (simp add: connect_loop_skip)
  next
    case True
    with Cons.prems(4)
    have u: "unused_ids (Suc (length (filter (links nodeId ne) rest))) uuids (edges g)"
      by simp
    let ?e = "link_edge nodeId nn ne x (shd uuids) (shd clock)"
    let ?g = "g\<lparr>edges := AList.update (shd uuids) ?e (edges g),
        nodes := push_connection (fst x) nodeId (push_connection nodeId (fst x) (nodes g))\<rparr>"
    let ?g' = "g\<lparr>edges := edges g @ [(shd uuids, ?e)],
        nodes := push_connection (fst x) nodeId (push_connection nodeId (fst x) (nodes g))\<rparr>"
    have e: "AList.update (shd uuids) ?e (edges g) = edges g @ [(shd uuids, ?e)]"
      by (rule update_unused [OF unused_ids_head [OF u]])
    have inv: "graph_inv ?g'"
      by (rule link_step_inv [OF Cons.prems(1,2) xin])
         (use links_not_self [OF True] in \<open>auto simp: link_edge_def\<close>)
    have keys: "fst ` set (nodes ?g') = fst ` set (nodes g)"
      by (simp add: keys_set_push_connection)
    have un: "unused_ids (length (filter (links nodeId ne) rest)) (stl uuids) (edges ?g')"
      using unused_ids_tail [OF u] by simp
    have "graph_inv (connect_loop nodeId nn ne rest (stl uuids) (stl clock) ?g')"
      by (rule Cons.IH [OF inv _ _ un]) (use Cons.prems(2) sub keys in auto)
    then show ?thesis
      by (simp only: connect_loop_link [OF True] e)
  qed
qed

section \<open>Insertion unfolded\<close>

lemma updateMetrics_nodes: "nodes (updateMetrics g) = nodes g"
  by (simp add: updateMetrics_def Let_def)

lemma updateMetrics_edges: "edges (updateMetrics g) = edges g"
  by (simp add: updateMetrics_def Let_def)

lemma graph_inv_cong:
  "nodes g' = nodes g \<Longrightarrow> edges g' = edges g \<Longrightarrow> graph_inv g' = graph_inv g"
  by (simp add: graph_inv_def referential_integrity_def connection_symmetry_def edge_between_def)

lemma links_self: "\<not> links nodeId ne (nodeId, node)"
  by (simp add: links_def split: option.splits)

lemma new_edges_append_self:
  "new_edges nodeId nn ne (todo @ [(nodeId, node)]) uuids clock = new_edges nodeId nn ne todo uuids clock"
  by (induction todo arbitrary: uuids clock) (simp_all add: links_self)

lemma filter_links_bound:
  "length (filter (links nodeId ne) (todo @ [(nodeId, node)])) \<le> length todo"
  by (simp add: links_self)

lemma addKnowledge_graph:
  assumes "shd uuids \<notin> fst ` set (nodes g)"
  shows "snd (addKnowledge embedder random uuids clock g content ty md) =
         updateMetrics
           (connect_loop (shd uuids)
              (make_node (shd uuids) (generateEmbedding embedder random content) (shd clock) content ty md)
              (generateEmbedding embedder random content)
              (nodes g @ [(shd uuids,
                 make_node (shd uuids) (generateEmbedding embedder random content) (shd clock) content ty md)])
              (stl uuids) (stl clock)
              (g\<lparr>nodes := nodes g @ [(shd uuids,
                 make_node (shd uuids) (generateEmbedding embedder random content) (shd clock) content ty md)]\<rparr>))"
proof -
  let ?node = "make_node (shd uuids) (generateEmbedding embedder random content) (shd clock) content ty md"
  let ?g1 = "g\<lparr>nodes := nodes g @ [(shd uuids, ?node)]\<rparr>"
  have u: "AList.update (shd uuids) ?node (nodes g) = nodes g @ [(shd uuids, ?node)]"
    by (rule update_unused [OF assms])
  have "map_of (nodes g) (shd uuids) = None"
    using assms by (simp add: map_of_eq_None_iff)
  then have m: "map_of (nodes ?g1) (shd uuids) = Some ?node"
    by (simp add: map_add_def)
  have e: "n_embedding ?node = Some (generateEmbedding embedder random content)"
    by (simp add: make_node_def)
  have c: "createConnections (stl uuids) (stl clock) ?g1 (shd uuids) =
    connect_loop (shd uuids) ?node (generateEmbedding embedder random content) (nodes ?g1)
      (stl uuids) (stl clock) ?g1"
    by (simp only: createConnections_def m e option.case)
  have "snd (addKnowledge embedder random uuids clock g content ty md) =
    updateMetrics (createConnections (stl uuids) (stl clock)
      (g\<lparr>nodes := AList.update (shd uuids) ?node (nodes g)\<rparr>) (shd uuids))"
    by (simp add: addKnowledge_def Let_def)
  also have "\<dots> = updateMetrics (createConnections (stl uuids) (stl clock) ?g1 (shd uuids))"
    by (simp only: u)
  also have "\<dots> = updateMetrics
    (connect_loop (shd uuids) ?node (generateEmbedding embedder random content) (nodes ?g1)
      (stl uuids) (stl clock) ?g1)"
    by (simp only: c)
  finally show ?thesis by simp
qed


lemma addKnowledge_edges:
  assumes "shd uuids \<notin> fst ` set (nodes g)"
    and "unused_ids (length (nodes g)) (stl uuids) (edges g)"
  shows "edges (snd (addKnowledge embedder random uuids clock g content ty md)) =
         edges g @ new_edges (shd uuids)
           (make_node (shd uuids) (generateEmbedding embedder random content) (shd clock) content ty md)
           (generateEmbedding embedder random content) (nodes g) (stl uuids) (stl clock)"
proof -
  let ?ne = "generateEmbedding embedder random content"
  let ?node = "make_node (shd uuids) ?ne (shd clock) content ty md"
  let ?g1 = "g\<lparr>nodes := nodes g @ [(shd uuids, ?node)]\<rparr>"
  have "unused_ids (length (filter (links (shd uuids) ?ne) (nodes g @ [(shd uuids, ?node)])))
          (stl uuids) (edges ?g1)"
    using unused_ids_mono [OF filter_links_bound assms(2)] by simp
  from connect_loop_edges [OF this]
  show ?thesis
    by (simp add: addKnowledge_graph [OF assms(1)] updateMetrics_edges new_edges_append_self)
qed

section \<open>The invariant across the operations\<close>

lemma edge_between_endpoints:
  "referential_integrity g \<Longrightarrow> edge_between g a b \<Longrightarrow>
   a \<in> fst ` set (nodes g) \<and> b \<in> fst ` set (nodes g)"
  unfolding referential_integrity_def edge_between_def list_ex_iff by fastforce

lemma insert_node_inv:
  assumes inv: "graph_inv g" and fresh: "k \<notin> fst ` set (nodes g)"
    and empty: "n_connections n = []" and own: "n_id n = k"
  shows "graph_inv (g\<lparr>nodes := nodes g @ [(k, n)]\<rparr>)"
proof -
  define ns where "ns = nodes g @ [(k, n)]"
  let ?g = "g\<lparr>nodes := ns\<rparr>"
  from inv have ri: "referential_integrity g" and cs: "connection_symmetry g"
    by (simp_all add: graph_inv_def)
  have ri': "referential_integrity ?g"
    using ri fresh empty own unfolding referential_integrity_def ns_def by auto
  have none: "map_of (nodes g) k = None"
    using fresh by (simp add: map_of_eq_None_iff)
  have look: "map_of ns a = (if a = k then Some n else map_of (nodes g) a)" for a
    using none by (auto simp: ns_def map_add_def split: option.splits)
  have eb: "edge_between ?g a b = edge_between g a b" for a b
    by (simp add: edge_between_def)
  have conn_in: "set (n_connections na) \<subseteq> fst ` set (nodes g)" if "map_of (nodes g) a = Some na" for a na
    using ri map_of_SomeD [OF that] unfolding referential_integrity_def by blast
  have cs': "connection_symmetry ?g"
    unfolding connection_symmetry_def
  proof (intro allI impI)
    fix a na b nb
    assume "map_of (nodes ?g) a = Some na" and "map_of (nodes ?g) b = Some nb" and ab: "a \<noteq> b"
    then have a: "map_of ns a = Some na" and b: "map_of ns b = Some nb" by simp_all
    show "(edge_between ?g a b \<longleftrightarrow> b \<in> set (n_connections na)) \<and>
          (b \<in> set (n_connections na) \<longleftrightarrow> a \<in> set (n_connections nb))"
    proof (cases "a = k")
      case True
      with a have na: "na = n" by (simp add: look)
      from True ab b have b0: "map_of (nodes g) b = Some nb" by (simp add: look)
      have "\<not> edge_between g a b"
        using edge_between_endpoints [OF ri, of a b] fresh True by blast
      moreover have "a \<notin> set (n_connections nb)"
        using conn_in [OF b0] fresh True by blast
      ultimately show ?thesis by (simp add: eb na empty)
    next
      case False
      with a have a0: "map_of (nodes g) a = Some na" by (simp add: look)
      show ?thesis
      proof (cases "b = k")
        case True
        with b have nb: "nb = n" by (simp add: look)
        have "\<not> edge_between g a b"
          using edge_between_endpoints [OF ri, of a b] fresh True by blast
        moreover have "b \<notin> set (n_connections na)"
          using conn_in [OF a0] fresh True by blast
        ultimately show ?thesis by (simp add: eb nb empty)
      next
        case False
        with b have b0: "map_of (nodes g) b = Some nb" by (simp add: look)
        from cs a0 b0 ab show ?thesis
          unfolding connection_symmetry_def eb by blast
      qed
    qed
  qed
  from ri' cs' show ?thesis by (simp add: graph_inv_def ns_def)
qed

lemma replace_node_inv:
  assumes inv: "graph_inv g" and old: "map_of (nodes g) k = Some n"
    and same: "n_connections n' = n_connections n" and own: "n_id n' = n_id n"
  shows "graph_inv (g\<lparr>nodes := AList.update k n' (nodes g)\<rparr>)"
proof -
  define ns where "ns = AList.update k n' (nodes g)"
  let ?g = "g\<lparr>nodes := ns\<rparr>"
  from inv have ri: "referential_integrity g" and cs: "connection_symmetry g"
    by (simp_all add: graph_inv_def)
  from ri have d: "distinct (map fst (nodes g))" by (simp add: referential_integrity_def)
  from old have kin: "k \<in> fst ` set (nodes g)"
    by (metis map_of_eq_None_iff option.distinct(1))
  have keys: "map fst ns = map fst (nodes g)"
    using kin by (simp add: ns_def update_keys)
  then have keyset: "fst ` set ns = fst ` set (nodes g)"
    by (metis set_map)
  have look: "map_of ns a = (if a = k then Some n' else map_of (nodes g) a)" for a
    by (simp add: ns_def update_conv')
  have d': "distinct (map fst ns)" using d keys by simp
  have conn: "\<exists>m0. map_of (nodes g) a = Some m0 \<and> n_connections m = n_connections m0
      \<and> n_id m = n_id m0"
    if "map_of ns a = Some m" for a m
    using that old same own by (auto simp: look split: if_splits)
  have eb: "edge_between ?g a b = edge_between g a b" for a b
    by (simp add: edge_between_def)
  have cin: "set (n_connections m) \<subseteq> fst ` set (nodes g) \<and> n_id m = a"
    if "(a, m) \<in> set ns" for a m
  proof -
    from that d' have "map_of ns a = Some m" by simp
    from conn [OF this] obtain m0 where m0: "map_of (nodes g) a = Some m0"
      and c: "n_connections m = n_connections m0" and i: "n_id m = n_id m0" by blast
    from map_of_SomeD [OF m0] ri show ?thesis
      unfolding referential_integrity_def c i by blast
  qed
  have ein: "e_source e \<in> fst ` set (nodes g) \<and> e_target e \<in> fst ` set (nodes g)"
    if "(i, e) \<in> set (edges g)" for i e
    using ri that unfolding referential_integrity_def by blast
  have ri': "referential_integrity ?g"
    unfolding referential_integrity_def using d' cin ein by (auto simp: keyset)
  have cs': "connection_symmetry ?g"
    unfolding connection_symmetry_def
  proof (intro allI impI)
    fix a na b nb
    assume "map_of (nodes ?g) a = Some na" and "map_of (nodes ?g) b = Some nb" and ab: "a \<noteq> b"
    then have a: "map_of ns a = Some na" and b: "map_of ns b = Some nb" by simp_all
    from conn [OF a] obtain na0 where a0: "map_of (nodes g) a = Some na0"
      and ca: "n_connections na = n_connections na0" by blast
    from conn [OF b] obtain nb0 where b0: "map_of (nodes g) b = Some nb0"
      and cb: "n_connections nb = n_connections nb0" by blast
    from cs a0 b0 ab
    show "(edge_between ?g a b \<longleftrightarrow> b \<in> set (n_connections na)) \<and>
          (b \<in> set (n_connections na) \<longleftrightarrow> a \<in> set (n_connections nb))"
      unfolding connection_symmetry_def eb ca cb by blast
  qed
  from ri' cs' show ?thesis by (simp add: graph_inv_def ns_def)
qed

lemma reinforce_inv: "graph_inv g \<Longrightarrow> graph_inv (reinforceKnowledge g nodeId fb)"
proof (cases "map_of (nodes g) nodeId")
  case None
  assume "graph_inv g"
  with None show ?thesis by (simp add: reinforceKnowledge_def)
next
  case (Some node)
  assume inv: "graph_inv g"
  show ?thesis
    unfolding reinforceKnowledge_def Some option.case Let_def
    by (rule replace_node_inv [OF inv Some]) simp_all
qed

lemma addKnowledge_inv:
  assumes inv: "graph_inv g" and fresh: "shd uuids \<notin> fst ` set (nodes g)"
    and ids: "unused_ids (length (nodes g)) (stl uuids) (edges g)"
  shows "graph_inv (snd (addKnowledge embedder random uuids clock g content ty md))"
proof -
  let ?ne = "generateEmbedding embedder random content"
  let ?node = "make_node (shd uuids) ?ne (shd clock) content ty md"
  let ?g1 = "g\<lparr>nodes := nodes g @ [(shd uuids, ?node)]\<rparr>"
  have inv1: "graph_inv ?g1"
    by (rule insert_node_inv [OF inv fresh]) (simp_all add: make_node_def)
  have u: "unused_ids (length (filter (links (shd uuids) ?ne) (nodes g @ [(shd uuids, ?node)])))
          (stl uuids) (edges ?g1)"
    using unused_ids_mono [OF filter_links_bound ids] by simp
  have "graph_inv (connect_loop (shd uuids) ?node ?ne (nodes g @ [(shd uuids, ?node)])
          (stl uuids) (stl clock) ?g1)"
    by (rule connect_loop_inv [OF inv1 _ _ u]) simp_all
  then show ?thesis
    by (simp add: addKnowledge_graph [OF fresh]
        graph_inv_cong [OF updateMetrics_nodes updateMetrics_edges])
qed

lemma empty_graph_inv: "graph_inv empty_graph"
  by (simp add: graph_inv_def referential_integrity_def connection_symmetry_def empty_graph_def)

lemma created_edges_append: "edges g' = edges g @ es \<Longrightarrow> created_edges g g' = es"
  by (simp add: created_edges_def)

lemma links_iff:
  "n_embedding m = Some em \<Longrightarrow>
   links nodeId en (mid, m) = (mid \<noteq> nodeId \<and> num_gt (cosineSimilarity en em) (Fin 0.7))"
  by (simp add: links_def)

section \<open>The examples evaluated\<close>

lemma cosine_unit: "cosineSimilarity [Fin 1, Fin 0] [Fin 1, Fin 0] = Fin 1"
  by (simp add: cosineSimilarity_def magnitude_def sum_squares_def at_index_def)

lemma single_graph_fresh:
  "distinct (map fst (nodes (single_graph ty0)))"
  "shd ex_uuids \<notin> fst ` set (nodes (single_graph ty0))"
  "unused_ids (length (nodes (single_graph ty0))) (stl ex_uuids) (edges (single_graph ty0))"
  by (simp_all add: single_graph_def ex_uuids_def unused_ids_def)

lemma single_graph_insert_edges:
  "created_edges (single_graph ty0)
     (snd (addKnowledge unit_embedder ex_random ex_uuids ex_clock (single_graph ty0) content ty md)) =
   [(''e1'', \<lparr>e_id = ''e1'', e_source = ''n'', e_target = ''a'',
              e_relationship =
                inferRelationship (make_node ''n'' [Fin 1, Fin 0] (Fin 0) content ty md)
                  (ex_a ty0),
              e_weight = Fin 1, e_timestamp = Fin 0\<rparr>)]"
proof -
  let ?A = "ex_a ty0"
  let ?N = "make_node ''n'' [Fin 1, Fin 0] (Fin 0) content ty md"
  have g: "generateEmbedding unit_embedder ex_random content = [Fin 1, Fin 0]"
    by (simp add: generateEmbedding_def unit_embedder_def)
  have emb: "n_embedding ?A = Some [Fin 1, Fin 0]"
    by (simp add: ex_a_def ex_node_def)
  have l: "links ''n'' [Fin 1, Fin 0] (''a'', ?A)"
    by (simp add: links_iff [OF emb] cosine_unit)
  have ne: "new_edges ''n'' ?N [Fin 1, Fin 0] (nodes (single_graph ty0)) (stl ex_uuids) (stl ex_clock) =
      [(''e1'', link_edge ''n'' ?N [Fin 1, Fin 0] (''a'', ?A) ''e1'' (Fin 0))]"
    by (simp only: single_graph_def KnowledgeGraph.simps new_edges.simps l if_True)
       (simp add: ex_uuids_def ex_clock_def)
  have le: "link_edge ''n'' ?N [Fin 1, Fin 0] (''a'', ?A) ''e1'' (Fin 0) =
      \<lparr>e_id = ''e1'', e_source = ''n'', e_target = ''a'',
       e_relationship = inferRelationship ?N ?A, e_weight = Fin 1, e_timestamp = Fin 0\<rparr>"
    by (simp only: link_edge_def emb option.sel cosine_unit fst_conv snd_conv)
  have s: "shd ex_uuids = ''n''" "shd ex_clock = Fin 0"
    by (simp_all add: ex_uuids_def ex_clock_def)
  have "edges (snd (addKnowledge unit_embedder ex_random ex_uuids ex_clock (single_graph ty0) content ty md)) =
      edges (single_graph ty0) @
      [(''e1'', \<lparr>e_id = ''e1'', e_source = ''n'', e_target = ''a'',
                 e_relationship = inferRelationship ?N ?A, e_weight = Fin 1, e_timestamp = Fin 0\<rparr>)]"
    by (simp only: addKnowledge_edges [OF single_graph_fresh(2,3)] g s ne le)
  then show ?thesis by (rule created_edges_append)
qed

section \<open>Nodes across an insertion\<close>



lemma addKnowledge_untouched:
  assumes fresh: "shd uuids \<notin> fst ` set (nodes g)"
    and keys: "distinct (map fst (nodes g))"
    and m: "(mid, m) \<in> set (nodes g)"
    and nolink: "\<not> links (shd uuids) (generateEmbedding embedder random content) (mid, m)"
  shows "map_of (nodes (snd (addKnowledge embedder random uuids clock g content ty md))) mid = Some m"
proof -
  let ?ne = "generateEmbedding embedder random content"
  let ?node = "make_node (shd uuids) ?ne (shd clock) content ty md"
  from m fresh have ne: "mid \<noteq> shd uuids" by force
  have only: "x = (mid, m)" if "x \<in> set (nodes g)" and "fst x = mid" for x
    using that m keys by (metis eq_key_imp_eq_value prod.collapse)
  have "\<forall>x \<in> set (nodes g @ [(shd uuids, ?node)]). fst x = mid \<longrightarrow> \<not> links (shd uuids) ?ne x"
    using only nolink ne by auto
  from connect_loop_untouched [OF ne this]
  have "map_of (nodes (snd (addKnowledge embedder random uuids clock g content ty md))) mid =
        map_of (nodes g @ [(shd uuids, ?node)]) mid"
    by (simp add: addKnowledge_graph [OF fresh] updateMetrics_nodes)
  also have "\<dots> = Some m"
    using m keys ne by (simp add: map_add_def)
  finally show ?thesis .
qed


section \<open>Vectors of zero magnitude\<close>

lemma square_cases:
  "(\<exists>r. num_mul v v = Fin r \<and> 0 \<le> r \<and> (\<exists>a. v = Fin a \<and> r = a * a)) \<or> num_mul v v = PosInf \<or> num_mul v v = NaN"
  by (cases v) simp_all

lemma sum_squares_not_finite:
  "acc = NaN \<or> acc = PosInf \<Longrightarrow>
   foldl (\<lambda>acc val. num_add acc (num_mul val val)) acc xs = NaN \<or>
   foldl (\<lambda>acc val. num_add acc (num_mul val val)) acc xs = PosInf"
proof (induction xs arbitrary: acc)
  case Nil
  then show ?case by simp
next
  case (Cons x xs)
  have "num_add acc (num_mul x x) = NaN \<or> num_add acc (num_mul x x) = PosInf"
    using Cons.prems square_cases [of x] by auto
  from Cons.IH [OF this] show ?case by simp
qed

lemma sum_squares_finite:
  "0 \<le> a \<Longrightarrow> foldl (\<lambda>acc val. num_add acc (num_mul val val)) (Fin a) xs = Fin s \<Longrightarrow>
   a \<le> s \<and> (s = 0 \<longrightarrow> (\<forall>x \<in> set xs. x = Fin 0))"
proof (induction xs arbitrary: a)
  case Nil
  then show ?case by simp
next
  case (Cons x xs)
  from square_cases [of x] consider
    (fin) v where "x = Fin v" | (bad) "num_mul x x = PosInf \<or> num_mul x x = NaN"
    by blast
  then show ?case
  proof cases
    case fin
    from Cons.prems(2) have f: "foldl (\<lambda>acc val. num_add acc (num_mul val val)) (Fin (a + v * v)) xs = Fin s"
      by (simp add: fin)
    have nn: "0 \<le> a + v * v" using Cons.prems(1) by simp
    from Cons.IH [OF nn f] have le: "a + v * v \<le> s"
      and z: "s = 0 \<longrightarrow> (\<forall>x \<in> set xs. x = Fin 0)" by blast+
    have vv: "0 \<le> v * v" by simp
    from le vv have "a \<le> s" by linarith
    moreover have "v = 0" if "s = 0"
    proof -
      from that le vv Cons.prems(1) have "v * v = 0" by linarith
      then show ?thesis by simp
    qed
    ultimately show ?thesis using z by (simp add: fin)
  next
    case bad
    then have "num_add (Fin a) (num_mul x x) = NaN \<or> num_add (Fin a) (num_mul x x) = PosInf"
      by auto
    from sum_squares_not_finite [OF this, of xs] Cons.prems(2) show ?thesis by simp
  qed
qed

lemma zero_magnitude_components: "magnitude a = Fin 0 \<Longrightarrow> \<forall>x \<in> set a. x = Fin 0"
proof -
  assume m: "magnitude a = Fin 0"
  then obtain s where s: "sum_squares a = Fin s"
    unfolding magnitude_def by (cases "sum_squares a") simp_all
  with m have "s = 0"
    unfolding magnitude_def by (simp split: if_splits)
  with sum_squares_finite [of 0 a s] s show ?thesis
    by (simp add: sum_squares_def)
qed

lemma mul_zero_left: "num_mul (Fin 0) y = Fin 0 \<or> num_mul (Fin 0) y = NaN"
  by (cases y) simp_all

lemma mul_zero_right: "num_mul y (Fin 0) = Fin 0 \<or> num_mul y (Fin 0) = NaN"
  by (cases y) simp_all

lemma mul_NaN_right: "num_mul y NaN = NaN"
  by (cases y) simp_all

lemma add_zero_or_NaN:
  "acc = Fin 0 \<or> acc = NaN \<Longrightarrow> t = Fin 0 \<or> t = NaN \<Longrightarrow> num_add acc t = Fin 0 \<or> num_add acc t = NaN"
  by auto

lemma dot_zero:
  "(\<forall>x \<in> set a. x = Fin 0) \<or> (\<forall>x \<in> set b. x = Fin 0) \<Longrightarrow> acc = Fin 0 \<or> acc = NaN \<Longrightarrow>
   dot_from i acc a b = Fin 0 \<or> dot_from i acc a b = NaN"
proof (induction a arbitrary: i acc)
  case Nil
  then show ?case by simp
next
  case (Cons val a)
  have t: "num_mul val (at_index b i) = Fin 0 \<or> num_mul val (at_index b i) = NaN"
  proof (cases "\<forall>x \<in> set b. x = Fin 0")
    case True
    then have "at_index b i = Fin 0 \<or> at_index b i = NaN"
      by (simp add: at_index_def)
    then show ?thesis using mul_zero_right [of val] mul_NaN_right [of val] by auto
  next
    case False
    with Cons.prems(1) have "val = Fin 0" by simp
    then show ?thesis using mul_zero_left [of "at_index b i"] by simp
  qed
  have r: "(\<forall>x \<in> set a. x = Fin 0) \<or> (\<forall>x \<in> set b. x = Fin 0)"
    using Cons.prems(1) by auto
  from Cons.IH [OF r add_zero_or_NaN [OF Cons.prems(2) t]] show ?case by simp
qed

lemma div_zero_or_NaN:
  "d = Fin 0 \<or> d = NaN \<Longrightarrow> p = Fin 0 \<or> p = NaN \<Longrightarrow> num_div d p = NaN"
  by auto

lemma zero_magnitude_NaN:
  assumes "magnitude a = Fin 0 \<or> magnitude b = Fin 0"
  shows "cosineSimilarity a b = NaN"
proof -
  from assms have z: "(\<forall>x \<in> set a. x = Fin 0) \<or> (\<forall>x \<in> set b. x = Fin 0)"
    using zero_magnitude_components by blast
  have d: "dot_from 0 (Fin 0) a b = Fin 0 \<or> dot_from 0 (Fin 0) a b = NaN"
    by (rule dot_zero [OF z]) simp
  have p: "num_mul (magnitude a) (magnitude b) = Fin 0 \<or> num_mul (magnitude a) (magnitude b) = NaN"
    using assms mul_zero_left [of "magnitude b"] mul_zero_right [of "magnitude a"] by auto
  show ?thesis
    unfolding cosineSimilarity_def Let_def by (rule div_zero_or_NaN [OF d p])
qed

section \<open>What the similarity computes\<close>











section \<open>Metrics\<close>

lemma confidence_sum:
  "\<forall>(k, node) \<in> set ns. \<forall>c. m_confidence (n_metadata node) = Some c \<longrightarrow> (\<exists>r. c = Fin r \<and> r \<noteq> 0) \<Longrightarrow>
   foldl (\<lambda>acc (k, node). num_add acc (confidence_or_half node)) (Fin a) ns =
   Fin (a + sum_list (map (\<lambda>(k, node). confidence_value node) ns))"
proof (induction ns arbitrary: a)
  case Nil
  show ?case by simp
next
  case (Cons x ns)
  obtain k node where x: "x = (k, node)" by (cases x)
  from Cons.prems x have c: "\<forall>c. m_confidence (n_metadata node) = Some c \<longrightarrow> (\<exists>r. c = Fin r \<and> r \<noteq> 0)"
    by simp
  have h: "confidence_or_half node = Fin (confidence_value node)"
  proof (cases "m_confidence (n_metadata node)")
    case None
    then show ?thesis by (simp add: confidence_or_half_def confidence_value_def)
  next
    case (Some c)
    with c obtain r where "c = Fin r" and "r \<noteq> 0" by blast
    with Some show ?thesis by (simp add: confidence_or_half_def confidence_value_def)
  qed
  from Cons.prems have "\<forall>(k, node) \<in> set ns. \<forall>c. m_confidence (n_metadata node) = Some c \<longrightarrow> (\<exists>r. c = Fin r \<and> r \<noteq> 0)"
    by simp
  from Cons.IH [OF this, of "a + confidence_value node"] show ?case
    by (simp add: x h add.assoc)
qed

lemma Array_from_Set_set:
  "set (foldl (\<lambda>seen x. if x \<in> set seen then seen else seen @ [x]) seen xs) = set seen \<union> set xs"
  by (induction xs arbitrary: seen) auto

lemma Array_from_Set_distinct:
  "distinct seen \<Longrightarrow> distinct (foldl (\<lambda>seen x. if x \<in> set seen then seen else seen @ [x]) seen xs)"
  by (induction xs arbitrary: seen) auto

section \<open>Reinforcement of a stored node\<close>

lemma addKnowledge_first_node:
  "nodes (snd (addKnowledge embedder random uuids clock empty_graph content ty md)) =
   [(shd uuids, make_node (shd uuids) (generateEmbedding embedder random content) (shd clock) content ty md)]"
proof -
  have f: "shd uuids \<notin> fst ` set (nodes empty_graph)" by (simp add: empty_graph_def)
  have l: "connect_loop k N e [(k, N)] u c G = G" for k N e u c G
    by (simp only: connect_loop_skip [OF links_self] connect_loop.simps(1))
  show ?thesis
    by (simp only: addKnowledge_graph [OF f] updateMetrics_nodes)
       (simp add: empty_graph_def l del: connect_loop.simps)
qed

lemma reinforce_clamps:
  fixes fb :: feedback
  defines "delta \<equiv> (if fb = positive then 0.1 else - 0.1 :: real)"
  assumes node: "map_of (nodes g) nodeId = Some node" and w: "n_weight node = Fin w"
  shows "\<exists>node'. map_of (nodes (reinforceKnowledge g nodeId fb)) nodeId = Some node'
           \<and> n_weight node' = Fin (max 0.1 (min 2 (w + delta)))
           \<and> (m_confidence (n_metadata node) = None \<longrightarrow> m_confidence (n_metadata node') = None)
           \<and> (\<forall>c. m_confidence (n_metadata node) = Some (Fin c) \<longrightarrow> c \<noteq> 0 \<longrightarrow>
                 m_confidence (n_metadata node') = Some (Fin (max 0.1 (min 1 (c + delta)))))"
proof -
  have cl: "Math_max (Fin lo) (Math_min (Fin hi) (num_add (Fin x) (if fb = positive then Fin 0.1 else Fin (- 0.1)))) =
      Fin (max lo (min hi (x + delta)))" for lo hi x
    by (auto simp: delta_def max_def min_def)
  show ?thesis
    by (auto simp: reinforceKnowledge_def node w Let_def update_conv' cl simp del: Math_max.simps Math_min.simps num_add.simps
        split: option.splits)
qed

section \<open>The label of a node\<close>

lemma split_from_first:
  "\<exists>rest. split_from False cur cs = (rev cur @ takeWhile (\<lambda>c. \<not> is_separator c) cs) # rest"
proof (induction cs arbitrary: cur)
  case Nil
  show ?case by simp
next
  case (Cons c cs)
  show ?case
  proof (cases "is_separator c")
    case True
    then show ?thesis by simp
  next
    case False
    from Cons.IH [of "c # cur"] obtain rest where
      "split_from False (c # cur) cs = (rev (c # cur) @ takeWhile (\<lambda>c. \<not> is_separator c) cs) # rest"
      by blast
    with False show ?thesis by simp
  qed
qed

text \<open>
  C10. For every content string the label is the first 50 characters of the text before
  the first \<open>.\<close>, \<open>!\<close> or \<open>?\<close>, followed by the three characters \<open>...\<close>, whatever
  the length of that text; the label of the empty content is \<open>...\<close>; and the label is
  never \<open>Unknown\<close>.
\<close>

theorem extractLabel_first_sentence:
  "extractLabel content =
     take 50 (takeWhile (\<lambda>c. c \<noteq> CHR ''.'' \<and> c \<noteq> CHR ''!'' \<and> c \<noteq> CHR ''?'') content) @ ''...''
   \<and> extractLabel [] = ''...''
   \<and> extractLabel content \<noteq> ''Unknown''"
proof -
  have sep: "(\<lambda>c. \<not> is_separator c) = (\<lambda>c. c \<noteq> CHR ''.'' \<and> c \<noteq> CHR ''!'' \<and> c \<noteq> CHR ''?'')"
    by (simp add: is_separator_def fun_eq_iff)
  from split_from_first [of "[]" content] obtain rest where
    s: "split_sentences content = takeWhile (\<lambda>c. \<not> is_separator c) content # rest"
    by (auto simp: split_sentences_def)
  have a: "extractLabel content = take 50 (takeWhile (\<lambda>c. \<not> is_separator c) content) @ ''...''"
    by (simp add: extractLabel_def s)
  have b: "extractLabel [] = ''...''"
    by (simp add: extractLabel_def split_sentences_def)
  have "last (extractLabel content) = CHR ''.''"
    by (simp add: a)
  then have c: "extractLabel content \<noteq> ''Unknown''"
    by auto
  from a b c show ?thesis unfolding sep by blast
qed

section \<open>Reinforcement\<close>

text \<open>
  C9. Reinforcing an id that is not a key of the node map returns the graph as it was,
  for either feedback: nodes, connections, edges and metrics history are unchanged, and
  nothing is raised (the operation has no failing branch).
\<close>

theorem reinforce_missing_node_noop:
  "map_of (nodes g) nodeId = None \<Longrightarrow> reinforceKnowledge g nodeId fb = g"
  by (simp add: reinforceKnowledge_def)

theorem reinforce_missing_node_noop_witness:
  "map_of (nodes empty_graph) ''missing'' = None
   \<and> reinforceKnowledge empty_graph ''missing'' negative = empty_graph"
  using reinforce_missing_node_noop [of empty_graph "''missing''" negative]
  by (simp add: empty_graph_def)

section \<open>Linking on insertion\<close>



section \<open>Connection symmetry\<close>

text \<open>
  C2. Connection symmetry is an invariant of the engine: together with referential
  integrity it holds of the empty graph, and it is preserved by \<open>addKnowledge\<close> (insertion
  with linking, under new ids) and by \<open>reinforceKnowledge\<close>. So for two distinct stored
  nodes \<open>a\<close> and \<open>b\<close>, an edge joins them if and only if \<open>b\<close> is in the connections
  of \<open>a\<close>, if and only if \<open>a\<close> is in the connections of \<open>b\<close>.
\<close>

theorem symmetry_preserved:
  assumes inv: "graph_inv g"
    and fresh: "shd uuids \<notin> fst ` set (nodes g)"
    and ids: "unused_ids (length (nodes g)) (stl uuids) (edges g)"
  shows "connection_symmetry g
       \<and> graph_inv (snd (addKnowledge embedder random uuids clock g content ty md))
       \<and> connection_symmetry (snd (addKnowledge embedder random uuids clock g content ty md))
       \<and> graph_inv (reinforceKnowledge g nodeId fb)
       \<and> connection_symmetry (reinforceKnowledge g nodeId fb)
       \<and> graph_inv empty_graph"
  using addKnowledge_inv [OF inv fresh ids, where embedder = embedder and random = random
      and clock = clock and content = content and ty = ty and md = md]
    reinforce_inv [OF inv, where nodeId = nodeId and fb = fb] inv empty_graph_inv
  by (simp add: graph_inv_def)


theorem symmetry_preserved_witness:
  "graph_inv pair_graph
   \<and> shd ex_uuids \<notin> fst ` set (nodes pair_graph)
   \<and> unused_ids (length (nodes pair_graph)) (stl ex_uuids) (edges pair_graph)
   \<and> connection_symmetry
       (snd (addKnowledge unit_embedder ex_random ex_uuids ex_clock pair_graph ''x'' entity
               no_overrides))
   \<and> connection_symmetry (reinforceKnowledge pair_graph ''a'' positive)"
proof -
  have ri: "referential_integrity pair_graph"
    by (simp add: referential_integrity_def pair_graph_def ex_node_def)
  have cs: "connection_symmetry pair_graph"
    by (auto simp: connection_symmetry_def pair_graph_def edge_between_def ex_node_def
        split: if_splits)
  from ri cs have i: "graph_inv pair_graph" by (simp add: graph_inv_def)
  have f: "shd ex_uuids \<notin> fst ` set (nodes pair_graph)"
    by (simp add: pair_graph_def ex_uuids_def)
  have u: "unused_ids (length (nodes pair_graph)) (stl ex_uuids) (edges pair_graph)"
    by (simp add: pair_graph_def ex_uuids_def unused_ids_def numeral_2_eq_2)
  from symmetry_preserved [OF i f u, where embedder = unit_embedder and random = ex_random
      and clock = ex_clock and content = "''x''" and ty = entity and md = no_overrides
      and nodeId = "''a''" and fb = positive]
  show ?thesis using i f u by simp
qed

section \<open>The relationship of a created edge\<close>

text \<open>
  C6, as the claim states it, fails: the label does depend on which endpoint is the new
  node. Inserting a concept next to a stored document with the same embedding creates one
  edge, and its label is \<open>connected_to\<close>, not \<open>contains\<close>.
\<close>

theorem created_edge_relationship_counterexample:
  "map (e_relationship \<circ> snd)
     (created_edges (single_graph document)
        (snd (addKnowledge unit_embedder ex_random ex_uuids ex_clock (single_graph document)
                ''x'' concept no_overrides))) = [''connected_to'']"
  by (simp add: single_graph_insert_edges inferRelationship_def make_node_def ex_a_def ex_node_def)

text \<open>
  C6, amended. For every edge created at the insertion of a node \<open>n\<close> of type \<open>ty\<close>
  against a stored node \<open>m\<close>, the label is given by the first rule that matches the
  ordered pair (new node, stored node): the same type gives \<open>similar_to\<close>; a new document
  against a stored concept gives \<open>contains\<close>; a new concept against a stored entity gives
  \<open>relates_to\<close>; anything else, the two reversed pairs included, gives \<open>connected_to\<close>.
\<close>

theorem created_edge_relationship:
  fixes g :: KnowledgeGraph
    and embedder :: "string \<Rightarrow> number list option"
    and random :: "real stream" and uuids :: "string stream" and clock :: "number stream"
    and content :: string and ty :: node_type and md :: MetadataArg
  defines "g' \<equiv> snd (addKnowledge embedder random uuids clock g content ty md)"
  assumes keys: "distinct (map fst (nodes g))"
    and fresh: "shd uuids \<notin> fst ` set (nodes g)"
    and ids: "unused_ids (length (nodes g)) (stl uuids) (edges g)"
    and m: "(mid, m) \<in> set (nodes g)"
  shows "\<forall>(k, e) \<in> set (created_edges g g'). e_target e = mid \<longrightarrow>
           e_relationship e =
             (if ty = n_type m then ''similar_to''
              else if ty = document \<and> n_type m = concept then ''contains''
              else if ty = concept \<and> n_type m = entity then ''relates_to''
              else ''connected_to'')"
proof -
  let ?en = "generateEmbedding embedder random content"
  let ?node = "make_node (shd uuids) ?en (shd clock) content ty md"
  let ?new = "new_edges (shd uuids) ?node ?en (nodes g) (stl uuids) (stl clock)"
  have cr: "created_edges g g' = ?new"
    unfolding g'_def by (rule created_edges_append [OF addKnowledge_edges [OF fresh ids]])
  have "e_relationship e =
             (if ty = n_type m then ''similar_to''
              else if ty = document \<and> n_type m = concept then ''contains''
              else if ty = concept \<and> n_type m = entity then ''relates_to''
              else ''connected_to'')"
    if "(k, e) \<in> set ?new" and "e_target e = mid" for k e
  proof -
    from new_edges_sound [OF that(1)] obtain x where x: "x \<in> set (nodes g)"
      and t: "e_target e = fst x"
      and r: "e_relationship e = inferRelationship ?node (snd x)"
      by blast
    from t that(2) have "fst x = mid" by simp
    with x m keys have "x = (mid, m)"
      by (metis eq_key_imp_eq_value prod.collapse)
    with r show ?thesis by (simp add: inferRelationship_def make_node_def)
  qed
  then show ?thesis unfolding cr by blast
qed

theorem created_edge_relationship_witness:
  "distinct (map fst (nodes (single_graph concept)))
   \<and> shd ex_uuids \<notin> fst ` set (nodes (single_graph concept))
   \<and> unused_ids (length (nodes (single_graph concept))) (stl ex_uuids) (edges (single_graph concept))
   \<and> map (e_relationship \<circ> snd)
       (created_edges (single_graph concept)
          (snd (addKnowledge unit_embedder ex_random ex_uuids ex_clock (single_graph concept)
                  ''x'' document no_overrides))) = [''contains'']"
proof -
  have m: "(''a'', ex_a concept) \<in> set (nodes (single_graph concept))"
    by (simp add: single_graph_def)
  from created_edge_relationship [OF single_graph_fresh m, where embedder = unit_embedder
      and random = ex_random and clock = ex_clock and content = "''x''" and ty = document
      and md = no_overrides]
  show ?thesis
    using single_graph_fresh [of concept]
    by (simp add: single_graph_insert_edges ex_a_def ex_node_def)
qed

section \<open>A failed embedding\<close>




section \<open>Zero magnitude\<close>

text \<open>
  C5, as the claim states it, fails: the similarity of the zero vector and \<open>(1, 0)\<close> is
  \<open>NaN\<close>, the quotient of zero by zero, and not \<open>0\<close>.
\<close>

theorem zero_magnitude_counterexample:
  "cosineSimilarity [Fin 0, Fin 0] [Fin 1, Fin 0] = NaN \<and>
   cosineSimilarity [Fin 0, Fin 0] [Fin 1, Fin 0] \<noteq> Fin 0"
  by (simp add: cosineSimilarity_def magnitude_def sum_squares_def at_index_def)

text \<open>
  C5, amended. For any two vectors of which at least one has magnitude zero,
  \<open>cosineSimilarity\<close> returns \<open>NaN\<close> (it has no failing branch), and \<open>NaN > 0.7\<close> is
  false. Consequently, when a node is inserted and its embedding or that of a stored node
  \<open>m\<close> has magnitude zero, no created edge starts or ends at \<open>m\<close>, and \<open>m\<close> is left as
  it was. Magnitude zero is meant in exact arithmetic: every component is \<open>0\<close>.
\<close>

theorem zero_magnitude_no_edge:
  fixes g :: KnowledgeGraph
    and embedder :: "string \<Rightarrow> number list option"
    and random :: "real stream" and uuids :: "string stream" and clock :: "number stream"
    and content :: string and ty :: node_type and md :: MetadataArg
  defines "en \<equiv> generateEmbedding embedder random content"
    and "g' \<equiv> snd (addKnowledge embedder random uuids clock g content ty md)"
  assumes keys: "distinct (map fst (nodes g))"
    and fresh: "shd uuids \<notin> fst ` set (nodes g)"
    and ids: "unused_ids (length (nodes g)) (stl uuids) (edges g)"
    and m: "(mid, m) \<in> set (nodes g)"
    and em: "n_embedding m = Some em"
    and zero: "magnitude en = Fin 0 \<or> magnitude em = Fin 0"
  shows "(\<forall>a b. magnitude a = Fin 0 \<or> magnitude b = Fin 0 \<longrightarrow>
            cosineSimilarity a b = NaN \<and> \<not> num_gt (cosineSimilarity a b) (Fin 0.7))
       \<and> filter (\<lambda>(k, e). e_source e = mid \<or> e_target e = mid) (created_edges g g') = []
       \<and> map_of (nodes g') mid = Some m"
proof -
  let ?node = "make_node (shd uuids) en (shd clock) content ty md"
  let ?new = "new_edges (shd uuids) ?node en (nodes g) (stl uuids) (stl clock)"
  have a: "cosineSimilarity a b = NaN \<and> \<not> num_gt (cosineSimilarity a b) (Fin 0.7)"
    if "magnitude a = Fin 0 \<or> magnitude b = Fin 0" for a b
    using zero_magnitude_NaN [OF that] by simp
  have cr: "created_edges g g' = ?new"
    unfolding g'_def en_def by (rule created_edges_append [OF addKnowledge_edges [OF fresh ids]])
  have nl: "\<not> links (shd uuids) en (mid, m)"
    using a [OF zero] by (simp add: links_iff [OF em])
  from m fresh have neq: "mid \<noteq> shd uuids" by force
  have c: "\<not> (e_source e = mid \<or> e_target e = mid)" if "(k, e) \<in> set ?new" for k e
  proof -
    from new_edges_sound [OF that] obtain x where x: "x \<in> set (nodes g)"
      and l: "links (shd uuids) en x" and s: "e_source e = shd uuids" and t: "e_target e = fst x"
      by blast
    have "fst x \<noteq> mid"
    proof
      assume "fst x = mid"
      with x m keys have "x = (mid, m)"
        by (metis eq_key_imp_eq_value prod.collapse)
      with l nl show False by simp
    qed
    with s t neq show ?thesis by simp
  qed
  then have b: "filter (\<lambda>(k, e). e_source e = mid \<or> e_target e = mid) ?new = []"
    by (auto simp: filter_empty_conv)
  have d: "map_of (nodes g') mid = Some m"
    unfolding g'_def using nl unfolding en_def by (rule addKnowledge_untouched [OF fresh keys m])
  from a b d show ?thesis unfolding cr by blast
qed

theorem zero_magnitude_no_edge_witness:
  "distinct (map fst (nodes (single_graph concept)))
   \<and> shd ex_uuids \<notin> fst ` set (nodes (single_graph concept))
   \<and> unused_ids (length (nodes (single_graph concept))) (stl ex_uuids) (edges (single_graph concept))
   \<and> magnitude (generateEmbedding zero_embedder ex_random ''x'') = Fin 0
   \<and> cosineSimilarity [Fin 0, Fin 0] [Fin 1, Fin 0] = NaN
   \<and> filter (\<lambda>(k, e). e_source e = ''a'' \<or> e_target e = ''a'')
        (created_edges (single_graph concept)
           (snd (addKnowledge zero_embedder ex_random ex_uuids ex_clock (single_graph concept)
                   ''x'' concept no_overrides))) = []
   \<and> map_of (nodes (snd (addKnowledge zero_embedder ex_random ex_uuids ex_clock (single_graph concept)
                   ''x'' concept no_overrides))) ''a'' = Some (ex_a concept)"
proof -
  have m: "(''a'', ex_a concept) \<in> set (nodes (single_graph concept))"
    by (simp add: single_graph_def)
  have e: "n_embedding (ex_a concept) = Some [Fin 1, Fin 0]"
    by (simp add: ex_a_def ex_node_def)
  have z: "magnitude (generateEmbedding zero_embedder ex_random ''x'') = Fin 0"
    by (simp add: generateEmbedding_def zero_embedder_def magnitude_def sum_squares_def)
  have z0: "magnitude [Fin 0, Fin 0] = Fin 0"
    by (simp add: magnitude_def sum_squares_def)
  from z have zz: "magnitude (generateEmbedding zero_embedder ex_random ''x'') = Fin 0
      \<or> magnitude [Fin 1, Fin 0] = Fin 0" by simp
  from zero_magnitude_no_edge [OF single_graph_fresh m e zz, where clock = ex_clock
      and ty = concept and md = no_overrides]
  show ?thesis
    using single_graph_fresh [of concept] z z0 by blast
qed

section \<open>The confidence score\<close>

text \<open>
  C4, as the claim states it, fails: the confidence score of the graph without nodes is
  \<open>0\<close>, the empty sum divided by \<open>max(1, 0)\<close>, and not \<open>0.5\<close>.
\<close>

theorem confidenceScore_counterexample:
  "confidenceScore (calculateMetrics empty_graph) = Fin 0 \<and>
   confidenceScore (calculateMetrics empty_graph) \<noteq> Fin 0.5"
  by (simp add: calculateMetrics_def empty_graph_def)

text \<open>
  C4, amended. Let every confidence that is present be a finite number other than \<open>0\<close>.
  Then the confidence score is \<open>0\<close> when the graph has no nodes, and otherwise the
  mean of the confidences over all nodes, a missing confidence counted as \<open>0.5\<close>.
\<close>

theorem confidenceScore_mean:
  assumes "\<forall>(k, node) \<in> set (nodes g). \<forall>c.
             m_confidence (n_metadata node) = Some c \<longrightarrow> (\<exists>r. c = Fin r \<and> r \<noteq> 0)"
  shows "confidenceScore (calculateMetrics g) =
         (if nodes g = [] then Fin 0 else Fin (mean_confidence g))"
proof (cases "nodes g = []")
  case True
  then show ?thesis by (simp add: calculateMetrics_def)
next
  case False
  then have n: "max 1 (length (nodes g)) = length (nodes g)"
    by (cases "nodes g") simp_all
  from False have nz: "real (length (nodes g)) \<noteq> 0" by simp
  have "confidenceScore (calculateMetrics g) =
      num_div (Fin (0 + sum_list (map (\<lambda>(k, node). confidence_value node) (nodes g))))
              (Fin (real (max 1 (length (nodes g)))))"
    by (simp only: calculateMetrics_def Let_def LearningMetrics.simps confidence_sum [OF assms])
  also have "\<dots> = Fin (mean_confidence g)"
    using nz by (simp only: n num_div.simps mean_confidence_def) simp
  finally show ?thesis using False by simp
qed

theorem confidenceScore_mean_witness:
  "map (\<lambda>(k, node). m_confidence (n_metadata node)) (nodes pair_graph) = [Some (Fin 0.8), None]
   \<and> confidenceScore (calculateMetrics pair_graph) = Fin 0.65"
proof -
  have c: "map (\<lambda>(k, node). m_confidence (n_metadata node)) (nodes pair_graph) = [Some (Fin 0.8), None]"
    by (simp add: pair_graph_def ex_node_def ex_md_def)
  have h: "\<forall>(k, node) \<in> set (nodes pair_graph). \<forall>c.
             m_confidence (n_metadata node) = Some c \<longrightarrow> (\<exists>r. c = Fin r \<and> r \<noteq> 0)"
    by (simp add: pair_graph_def ex_node_def ex_md_def) (rule exI [of _ "4 / 5"], simp)
  have m: "mean_confidence pair_graph = 0.65"
    by (simp add: mean_confidence_def pair_graph_def confidence_value_def ex_node_def ex_md_def)
  from confidenceScore_mean [OF h] show ?thesis
    using c by (simp add: m) (simp add: pair_graph_def)
qed

section \<open>The knowledge domains\<close>

text \<open>
  C8, as the claim states it, fails: a node without a domain contributes \<open>unknown\<close>. The
  graph whose only node has no domain has the domain list \<open>[unknown]\<close>, not the empty one.
\<close>

theorem knowledgeDomains_counterexample:
  "knowledgeDomains (calculateMetrics bare_graph) = [''unknown'']"
  by (simp add: calculateMetrics_def bare_graph_def Array_from_Set_def domain_or_unknown_def
      ex_node_def ex_md_def)

text \<open>
  C8, amended. The domain list of a metrics snapshot has no duplicates, and its values
  are the non-empty domains of the stored nodes, together with \<open>unknown\<close> as soon as some
  node has no domain or the empty string as its domain.
\<close>

theorem knowledgeDomains_with_unknown:
  "distinct (knowledgeDomains (calculateMetrics g)) \<and>
   set (knowledgeDomains (calculateMetrics g)) =
     {d. d \<noteq> [] \<and> (\<exists>(k, node) \<in> set (nodes g). m_domain (n_metadata node) = Some d)} \<union>
     (if \<exists>(k, node) \<in> set (nodes g).
           m_domain (n_metadata node) = None \<or> m_domain (n_metadata node) = Some []
      then {''unknown''} else {})"
proof -
  have k: "knowledgeDomains (calculateMetrics g) =
      Array_from_Set (map (\<lambda>(k, node). domain_or_unknown node) (nodes g))"
    by (simp add: calculateMetrics_def Let_def)
  have d: "distinct (knowledgeDomains (calculateMetrics g))"
    unfolding k Array_from_Set_def by (rule Array_from_Set_distinct) simp
  have "set (knowledgeDomains (calculateMetrics g)) =
      (\<lambda>(k, node). domain_or_unknown node) ` set (nodes g)"
    unfolding k Array_from_Set_def by (simp add: Array_from_Set_set)
  also have "\<dots> =
     {d. d \<noteq> [] \<and> (\<exists>(k, node) \<in> set (nodes g). m_domain (n_metadata node) = Some d)} \<union>
     (if \<exists>(k, node) \<in> set (nodes g).
           m_domain (n_metadata node) = None \<or> m_domain (n_metadata node) = Some []
      then {''unknown''} else {})"
    by (auto simp: domain_or_unknown_def image_iff split: option.splits if_splits) force+
  finally show ?thesis using d by blast
qed

section \<open>Reinforcement and a confidence of zero\<close>

text \<open>
  C7. The claim holds of the weight, and of a confidence that is present and not \<open>0\<close>
  (lemma \<open>reinforce_clamps\<close>). It fails for a confidence that is present and equal to
  \<open>0\<close>, which the test \<open>if (node.metadata.confidence)\<close> takes for an absent one: a node
  inserted with the confidence \<open>0\<close> has its weight raised to \<open>1.1\<close> by a positive
  reinforcement, and its confidence left at \<open>0\<close>, outside the interval from \<open>0.1\<close> to
  \<open>1.0\<close>.
\<close>

theorem reinforce_zero_confidence_unchanged:
  "map_option (m_confidence \<circ> n_metadata)
     (map_of (nodes (snd (addKnowledge unit_embedder ex_random ex_uuids ex_clock empty_graph
                            ''x'' concept (confidence_only (Fin 0))))) ''n'') = Some (Some (Fin 0))
   \<and> map_option (m_confidence \<circ> n_metadata)
     (map_of (nodes (reinforceKnowledge
                      (snd (addKnowledge unit_embedder ex_random ex_uuids ex_clock empty_graph
                              ''x'' concept (confidence_only (Fin 0))))
                      ''n'' positive)) ''n'') = Some (Some (Fin 0))
   \<and> map_option n_weight
     (map_of (nodes (reinforceKnowledge
                      (snd (addKnowledge unit_embedder ex_random ex_uuids ex_clock empty_graph
                              ''x'' concept (confidence_only (Fin 0))))
                      ''n'' positive)) ''n'') = Some (Fin 1.1)"
  by (simp add: reinforceKnowledge_def addKnowledge_first_node ex_uuids_def make_node_def
      confidence_only_def
      Let_def)

end
